theory Spec2Isabelle
  imports Complex_Main "HOL-Library.Word"
begin

unbundle bit_operations_syntax

section \<open>Archive reader (extract\_icons.js)\<close>

text \<open>
  A Node \<open>Buffer\<close> is a list of bytes. Reading \<open>b[o]\<close> past the end gives
  \<open>undefined\<close>: it is never \<open>===\<close> to a number, and the bitwise operators
  read it as 0.
\<close>

type_synonym byte = "8 word"
type_synonym buffer = "byte list"

definition byteAt :: "buffer \<Rightarrow> nat \<Rightarrow> byte option" where
  "byteAt b off = (if off < length b then Some (b ! off) else None)"

definition toInt32 :: "byte option \<Rightarrow> 32 word" where
  "toInt32 v = (case v of None \<Rightarrow> 0 | Some x \<Rightarrow> ucast x)"

text \<open>\<open>function readUInt16LE(b, o) { return b[o] | (b[o+1] << 8); }\<close>\<close>

definition readUInt16LE :: "buffer \<Rightarrow> nat \<Rightarrow> nat" where
  "readUInt16LE b off = unat (toInt32 (byteAt b off) OR push_bit 8 (toInt32 (byteAt b (off + 1))))"

text \<open>
  \<open>function readUInt32LE(b, o) { return (b[o] | (b[o+1]<<8) | (b[o+2]<<16) | (b[o+3]<<24)) >>> 0; }\<close>
\<close>

definition readUInt32LE :: "buffer \<Rightarrow> nat \<Rightarrow> nat" where
  "readUInt32LE b off =
     unat (toInt32 (byteAt b off) OR push_bit 8 (toInt32 (byteAt b (off + 1)))
           OR push_bit 16 (toInt32 (byteAt b (off + 2)))
           OR push_bit 24 (toInt32 (byteAt b (off + 3))))"

text \<open>
  The test of \<open>findEOCD\<close>'s loop body:
  \<open>buf[i]===0x50&&buf[i+1]===0x4b&&buf[i+2]===0x05&&buf[i+3]===0x06\<close>.
\<close>

definition sigEOCD :: "buffer \<Rightarrow> nat \<Rightarrow> bool" where
  "sigEOCD buf i \<longleftrightarrow>
     byteAt buf i = Some 0x50 \<and> byteAt buf (i + 1) = Some 0x4b \<and>
     byteAt buf (i + 2) = Some 0x05 \<and> byteAt buf (i + 3) = Some 0x06"

text \<open>
  \<open>for (let i = buf.length - 22; i >= 0; i--) if (...) return i; return -1;\<close>
  The loop counts down to 0 inclusive; \<open>eocdScan buf i\<close> is the loop entered with
  a non-negative counter \<open>i\<close>. With fewer than 22 bytes the counter starts negative
  and the body never runs.
\<close>

fun eocdScan :: "buffer \<Rightarrow> nat \<Rightarrow> int" where
  "eocdScan buf 0 = (if sigEOCD buf 0 then 0 else - 1)"
| "eocdScan buf (Suc i) = (if sigEOCD buf (Suc i) then int (Suc i) else eocdScan buf i)"

definition findEOCD :: "buffer \<Rightarrow> int" where
  "findEOCD buf = (if length buf < 22 then - 1 else eocdScan buf (length buf - 22))"

text \<open>
  \<open>buf.slice(start, end)\<close> for \<open>0 \<le> start \<le> end\<close>: the bytes from \<open>start\<close> up to
  \<open>end\<close>, clamped to the buffer (no failure past the end).
\<close>

definition slice :: "buffer \<Rightarrow> nat \<Rightarrow> nat \<Rightarrow> buffer" where
  "slice buf start stop = take (stop - start) (drop start buf)"

text \<open>An entry of the central directory, as \<open>parseZip\<close> pushes it.\<close>

record zip_entry =
  name :: string
  compression :: nat
  compSize :: nat
  localOffset :: nat

text \<open>
  \<open>extractEntry(buf, entry)\<close>. \<open>null\<close> is \<open>None\<close>. The only call that can throw
  is \<open>zlib.inflateRawSync\<close>, inside \<open>try { ... } catch { return null; }\<close>: zlib is a
  parameter that returns \<open>None\<close> where it throws. \<open>dataStart\<close> is the local
  variable of that name, read from the local header's name and extra lengths.
\<close>

definition dataStart :: "buffer \<Rightarrow> zip_entry \<Rightarrow> nat" where
  "dataStart buf entry =
     (let lh = localOffset entry;
          nameLen = readUInt16LE buf (lh + 26);
          extraLen = readUInt16LE buf (lh + 28)
      in lh + 30 + nameLen + extraLen)"

definition extractEntry :: "(buffer \<Rightarrow> buffer option) \<Rightarrow> buffer \<Rightarrow> zip_entry \<Rightarrow> buffer option" where
  "extractEntry inflateRawSync buf entry =
     (let lh = localOffset entry in
      if lh + 30 > length buf then None
      else
        let compressed = slice buf (dataStart buf entry) (dataStart buf entry + compSize entry)
        in if compression entry = 0 then Some compressed
           else if compression entry = 8 then inflateRawSync compressed
           else None)"


definition inflateStored :: "buffer \<Rightarrow> buffer option" where
  "inflateStored c =
     (case c of
        h # l0 # l1 # n0 # n1 # rest \<Rightarrow>
          (let len = unat l0 + 256 * unat l1 in
           if h = 1 \<and> n0 = NOT l0 \<and> n1 = NOT l1 \<and> len = length rest
           then Some rest else None)
      | _ \<Rightarrow> None)"

text \<open>
  Test fixtures for the reader. \<open>eocdMagic\<close> is the signature \<open>findEOCD\<close> looks for.
  \<open>localRecord fixed nm extra payload\<close> is a local file record as a ZIP writer lays it
  out: the local signature, 22 bytes of fixed fields that \<open>extractEntry\<close> does not read
  (\<open>fixed\<close>), the name and extra lengths as 16-bit little-endian values at offsets 26
  and 28, then the name, the extra field and the entry's data.
\<close>

definition eocdMagic :: buffer where
  "eocdMagic = [0x50, 0x4b, 0x05, 0x06]"

definition le16 :: "nat \<Rightarrow> buffer" where
  "le16 n = [word_of_nat (n mod 256), word_of_nat (n div 256)]"

definition localRecord :: "buffer \<Rightarrow> buffer \<Rightarrow> buffer \<Rightarrow> buffer \<Rightarrow> buffer" where
  "localRecord fixed nm extra payload =
     [0x50, 0x4b, 0x03, 0x04] @ fixed @ le16 (length nm) @ le16 (length extra) @ nm @ extra @ payload"

section \<open>Atlas packer (build\_atlas.js)\<close>

text \<open>\<open>const TILE = 16; const COLS = 64;\<close>\<close>

definition TILE :: nat where
  "TILE = 16"

definition COLS :: nat where
  "COLS = 64"

text \<open>
  \<open>Math.floor(a / b)\<close> and \<open>Math.ceil(a / b)\<close> on non-negative integers. JavaScript
  divides as doubles; with \<open>b = 64\<close>, a power of two, the quotient of an array index
  or length is exact, so the real quotient is the value the code rounds.
\<close>

definition mathFloorDiv :: "nat \<Rightarrow> nat \<Rightarrow> nat" where
  "mathFloorDiv a b = nat \<lfloor>real a / real b\<rfloor>"

definition mathCeilDiv :: "nat \<Rightarrow> nat \<Rightarrow> nat" where
  "mathCeilDiv a b = nat \<lceil>real a / real b\<rceil>"

text \<open>
  One element of \<open>composites\<close>: \<open>{ input: buf, raw: {...}, left, top }\<close>. The canvas
  \<open>base\<close> starts transparent and only ever changes by compositing a batch onto it, so
  it is the list of the tiles composited so far, in order. The loop's state is the canvas,
  the pending batch and the coordinate mapping \<open>manifest\<close>.
\<close>

record 'b composite =
  tileInput :: 'b
  tileLeft :: nat
  tileTop :: nat

record 'b pack_state =
  base :: "'b composite list"
  composites :: "'b composite list"
  manifest :: "string \<rightharpoonup> nat \<times> nat"

text \<open>
  The loop \<open>for (let i = 0; i < iconPaths.length; i++)\<close> of \<open>buildAtlas\<close>, entered at
  index \<open>i\<close> with the entries from \<open>i\<close> on. \<open>sharp\<close> is the image library's
  \<open>sharp(file).resize(TILE, TILE, ...).ensureAlpha().raw().toBuffer()\<close>: \<open>None\<close> where
  it throws, which the loop answers with \<open>continue\<close>. A batch of 2000 is flushed onto
  the canvas.
\<close>

fun packLoop :: "('f \<Rightarrow> 'b option) \<Rightarrow> nat \<Rightarrow> (string \<times> 'f) list \<Rightarrow> 'b pack_state \<Rightarrow> 'b pack_state" where
  "packLoop sharp i [] st = st"
| "packLoop sharp i ((ident, file) # rest) st =
     (let col = i mod COLS;
          row = mathFloorDiv i COLS;
          left = col * TILE;
          top = row * TILE
      in case sharp file of
           None \<Rightarrow> packLoop sharp (i + 1) rest st
         | Some buf \<Rightarrow>
             let pushed = composites st @ [\<lparr>tileInput = buf, tileLeft = left, tileTop = top\<rparr>];
                 st1 = st\<lparr>composites := pushed, manifest := (manifest st)(ident \<mapsto> (left, top))\<rparr>;
                 st2 = (if length pushed \<ge> 2000
                        then st1\<lparr>base := base st1 @ pushed, composites := []\<rparr>
                        else st1)
             in packLoop sharp (i + 1) rest st2)"

text \<open>
  The two outputs: the raw canvas handed to the encoders (its declared size and the
  tiles composited onto it) and \<open>atlasManifest\<close>, written to \<open>icons_atlas.json\<close>.
\<close>

record 'b atlas_image =
  rawWidth :: nat
  rawHeight :: nat
  tiles :: "'b composite list"

record atlas_manifest =
  tile :: nat
  cols :: nat
  rows :: nat
  width :: nat
  height :: nat
  icons :: "string \<rightharpoonup> nat \<times> nat"

text \<open>
  \<open>buildAtlas(iconPaths)\<close>, with the two places where the image library throws outside
  any \<open>try\<close>, so that the promise is rejected and \<open>icons_atlas.json\<close> is not written.
  The canvas is created first, by
  \<open>sharp(bgBuf, { raw: { width: W, height: H, channels: 4 } })\<close>: sharp takes raw pixel
  input only with a positive width and height, so for a list with no icons (\<open>H = 0\<close>) the
  call throws before the loop. After the loop the canvas is saved as PNG and then as
  WebP, and the manifest is written last: a WebP image is at most 16383 pixels wide and
  high, so for more than 1023 rows \<open>.webp(...).toFile(outWebp)\<close> throws.
\<close>

datatype atlas_error = RawInputRejected | TooLargeForWebP

definition WEBP_MAX :: nat where
  "WEBP_MAX = 16383"

definition buildAtlas :: "('f \<Rightarrow> 'b option) \<Rightarrow> (string \<times> 'f) list \<Rightarrow> atlas_error + 'b atlas_image \<times> atlas_manifest" where
  "buildAtlas sharp iconPaths =
     (let count = length iconPaths;
          rows = mathCeilDiv count COLS;
          W = COLS * TILE;
          H = rows * TILE
      in if W = 0 \<or> H = 0 then Inl RawInputRejected
         else
           let st = packLoop sharp 0 iconPaths \<lparr>base = [], composites = [], manifest = Map.empty\<rparr>;
               final = (if length (composites st) > 0 then base st @ composites st else base st)
           in if W > WEBP_MAX \<or> H > WEBP_MAX then Inl TooLargeForWebP
              else Inr (\<lparr>rawWidth = W, rawHeight = H, tiles = final\<rparr>,
                        \<lparr>tile = TILE, cols = COLS, rows = rows, width = W, height = H,
                          icons = manifest st\<rparr>))"

text \<open>
  For the proofs: what \<open>buildAtlas\<close> returns when the library accepts the canvas, the grid slot of
  an input index, one loop step that places a tile, and the tiles the loop is expected to
  place (those whose image loads, each at the slot of its own index).
\<close>

definition packedAtlas :: "('f \<Rightarrow> 'b option) \<Rightarrow> (string \<times> 'f) list \<Rightarrow> 'b atlas_image \<times> atlas_manifest" where
  "packedAtlas sharp iconPaths =
     (let st = packLoop sharp 0 iconPaths \<lparr>base = [], composites = [], manifest = Map.empty\<rparr>;
          final = (if length (composites st) > 0 then base st @ composites st else base st)
      in (\<lparr>rawWidth = COLS * TILE, rawHeight = mathCeilDiv (length iconPaths) COLS * TILE,
           tiles = final\<rparr>,
          \<lparr>tile = TILE, cols = COLS, rows = mathCeilDiv (length iconPaths) COLS,
           width = COLS * TILE, height = mathCeilDiv (length iconPaths) COLS * TILE,
           icons = manifest st\<rparr>))"

definition slot :: "nat \<Rightarrow> nat \<times> nat" where
  "slot i = ((i mod COLS) * TILE, (i div COLS) * TILE)"

definition pushTile :: "'b pack_state \<Rightarrow> string \<Rightarrow> 'b \<Rightarrow> nat \<times> nat \<Rightarrow> 'b pack_state" where
  "pushTile st ident buf p =
     (let pushed = composites st @ [\<lparr>tileInput = buf, tileLeft = fst p, tileTop = snd p\<rparr>];
          st1 = st\<lparr>composites := pushed, manifest := (manifest st)(ident \<mapsto> p)\<rparr>
      in if length pushed \<ge> 2000 then st1\<lparr>base := base st1 @ pushed, composites := []\<rparr> else st1)"


text \<open>
  Concrete inputs: three icons whose second image fails to load, and 66 icons (two grid
  rows) whose second image fails to load.
\<close>

definition demoSharp :: "string \<Rightarrow> string option" where
  "demoSharp f = (if f = ''bad'' then None else Some f)"

definition demoIcons :: "(string \<times> string) list" where
  "demoIcons = [(''a:x'', ''fx''), (''a:y'', ''bad''), (''a:z'', ''fz'')]"



section \<open>JavaScript values and the Node library\<close>

text \<open>
  A value that is a string or \<open>undefined\<close>/\<open>null\<close> is a \<open>string option\<close>. It is
  truthy when it is a non-empty string; \<open>a || b\<close> is \<open>orElse\<close> (\<open>orString\<close> when \<open>b\<close> is
  known to be a string). \<open>s.indexOf(c)\<close> is \<open>None\<close> where JavaScript gives \<open>-1\<close>.
  \<open>s.replace(/c/g, by)\<close> for a single character \<open>c\<close> is \<open>replaceAll\<close>. Characters are
  the string's code units below 256.
\<close>

definition truthy :: "string option \<Rightarrow> bool" where
  "truthy v = (case v of None \<Rightarrow> False | Some s \<Rightarrow> s \<noteq> [])"

definition orElse :: "string option \<Rightarrow> string option \<Rightarrow> string option" where
  "orElse a b = (if truthy a then a else b)"

definition orString :: "string option \<Rightarrow> string \<Rightarrow> string" where
  "orString a b = (case a of None \<Rightarrow> b | Some s \<Rightarrow> if s \<noteq> [] then s else b)"

fun indexOf :: "string \<Rightarrow> char \<Rightarrow> nat option" where
  "indexOf [] c = None"
| "indexOf (x # xs) c = (if x = c then Some 0 else map_option Suc (indexOf xs c))"

definition replaceAll :: "char \<Rightarrow> string \<Rightarrow> string \<Rightarrow> string" where
  "replaceAll c by s = concat (map (\<lambda>x. if x = c then by else [x]) s)"

text \<open>
  Node's \<open>path\<close> module and the script's \<open>__dirname\<close> are not code of the repository:
  they are parameters, and every theorem below holds for all of them. The file system is
  the set of the paths that exist (\<open>fs.existsSync(p)\<close> is \<open>p \<in> disk\<close>).
\<close>

record node =
  path_join :: "string list \<Rightarrow> string"
  path_basename :: "string \<Rightarrow> string"
  path_basename_ext :: "string \<Rightarrow> string \<Rightarrow> string"
  path_sep :: string
  dirname :: string

text \<open>\<open>const iconsDir = path.join(__dirname, 'icons');\<close>\<close>

definition iconsDir :: "node \<Rightarrow> string" where
  "iconsDir nd = path_join nd [dirname nd, ''icons'']"

section \<open>Icon lookup (build\_atlas.js)\<close>

text \<open>
  \<open>name.split('/').pop()\<close> is the part after the last slash, and
  \<open>.replace(/\.png$/, '')\<close> drops one trailing \<open>.png\<close>.
\<close>

definition lastSegment :: "string \<Rightarrow> string" where
  "lastSegment s = rev (takeWhile (\<lambda>c. c \<noteq> CHR ''/'') (rev s))"

definition stripPng :: "string \<Rightarrow> string" where
  "stripPng s =
     (if 4 \<le> length s \<and> drop (length s - 4) s = ''.png'' then take (length s - 4) s else s)"

text \<open>\<open>path.join(__dirname, manifest[v].replace(/\//g, path.sep))\<close>\<close>

definition iconAbsPath :: "node \<Rightarrow> string \<Rightarrow> string" where
  "iconAbsPath nd url = path_join nd [dirname nd, replaceAll CHR ''/'' (path_sep nd) url]"

text \<open>
  The loop \<open>for (const v of variants)\<close> of \<open>findIconPath\<close>: the first variant whose
  manifest entry is truthy and whose file exists gives the result.
\<close>

fun tryVariants :: "node \<Rightarrow> string set \<Rightarrow> (string \<rightharpoonup> string) \<Rightarrow> string list \<Rightarrow> string option" where
  "tryVariants nd disk mf [] = None"
| "tryVariants nd disk mf (v # vs) =
     (case mf v of
        None \<Rightarrow> tryVariants nd disk mf vs
      | Some url \<Rightarrow>
          if url \<noteq> [] \<and> iconAbsPath nd url \<in> disk then Some (iconAbsPath nd url)
          else tryVariants nd disk mf vs)"

text \<open>
  \<open>findIconPath(id, manifest)\<close>. The third variant is the source's
  \<open>`${ns}:${name}_item`\<close>, built from \<open>name\<close>, not from \<open>basename\<close>.
\<close>

definition findIconPath :: "node \<Rightarrow> string set \<Rightarrow> string \<Rightarrow> (string \<rightharpoonup> string) \<Rightarrow> string option" where
  "findIconPath nd disk ident mf =
     (case indexOf ident CHR '':'' of
        None \<Rightarrow> None
      | Some colon \<Rightarrow>
          let ns = take colon ident;
              nm = drop (colon + 1) ident;
              basename = stripPng (lastSegment nm);
              variants = [ident, ns @ '':'' @ basename, ns @ '':'' @ nm @ ''_item'']
          in tryVariants nd disk mf variants)"

text \<open>
  The lookup as the specification words it, for comparison with the code: the third
  spelling is \<open>{ns}:{basename}_item\<close>.
\<close>

definition findIconPathSpec :: "node \<Rightarrow> string set \<Rightarrow> string \<Rightarrow> (string \<rightharpoonup> string) \<Rightarrow> string option" where
  "findIconPathSpec nd disk ident mf =
     (case indexOf ident CHR '':'' of
        None \<Rightarrow> None
      | Some colon \<Rightarrow>
          let ns = take colon ident;
              nm = drop (colon + 1) ident;
              basename = stripPng (lastSegment nm)
          in tryVariants nd disk mf
               [ident, ns @ '':'' @ basename, ns @ '':'' @ basename @ ''_item''])"

text \<open>
  A concrete Node for the closed theorems: a POSIX \<open>path\<close> on the inputs used there
  (segments without \<open>.\<close>, \<open>..\<close> or doubled slashes, so that \<open>path.join\<close> only puts a slash
  between them), installed in \<open>/app\<close>.
\<close>

fun joinSlash :: "string list \<Rightarrow> string" where
  "joinSlash [] = ''.''"
| "joinSlash [s] = s"
| "joinSlash (s # ss) = s @ ''/'' @ joinSlash ss"

definition stripExt :: "string \<Rightarrow> string \<Rightarrow> string" where
  "stripExt s ext =
     (if length ext < length s \<and> drop (length s - length ext) s = ext
      then take (length s - length ext) s else s)"

definition demoNode :: node where
  "demoNode = \<lparr>path_join = joinSlash, path_basename = lastSegment,
                path_basename_ext = (\<lambda>p ext. stripExt (lastSegment p) ext),
                path_sep = ''/'', dirname = ''/app''\<rparr>"

section \<open>Texture catalog and indirect resolution (extract\_icons.js, both versions)\<close>

text \<open>
  A parsed JSON value is a string or something else. The \<open>textures\<close> object of a block
  model is the list of its own properties in enumeration order, one pair for each key.
  A store (\<open>itemPaths\<close>, \<open>blockPaths\<close>, the manifest) maps keys to paths. The keys the
  extractor uses all contain a colon, so none meets a property of \<open>Object.prototype\<close>.
\<close>

datatype json = JString string | JOther

type_synonym textures = "(string \<times> json) list"
type_synonym store = "string \<rightharpoonup> string"

text \<open>What \<open>blockModels[key]\<close> holds: \<open>{ top, side, front }\<close>.\<close>

record faces =
  topRef :: string
  sideRef :: string
  frontRef :: string

definition startsWithHash :: "string \<Rightarrow> bool" where
  "startsWithHash v = (case v of [] \<Rightarrow> False | c # _ \<Rightarrow> c = CHR ''#'')"

text \<open>
  The closure \<open>resolve(names)\<close>: the first name whose value is a non-empty string that
  does not start with \<open>#\<close>.
\<close>

fun resolve :: "textures \<Rightarrow> string list \<Rightarrow> string option" where
  "resolve tex [] = None"
| "resolve tex (n # names) =
     (case map_of tex n of
        Some (JString v) \<Rightarrow> if v \<noteq> [] \<and> \<not> startsWithHash v then Some v else resolve tex names
      | _ \<Rightarrow> resolve tex names)"

text \<open>\<open>Object.values(tex).find(v => typeof v === 'string' && !v.startsWith('#'))\<close>\<close>

definition firstPlainString :: "textures \<Rightarrow> string option" where
  "firstPlainString tex =
     (case find (\<lambda>v. case v of JString s \<Rightarrow> \<not> startsWithHash s | JOther \<Rightarrow> False) (map snd tex) of
        Some (JString s) \<Rightarrow> Some s
      | _ \<Rightarrow> None)"

text \<open>
  The faces a mod archive's block model gives (the newer extractor, lines 265 to 280):
  \<open>None\<close> when \<open>first\<close> is falsy and \<open>blockModels[key]\<close> stays unset.
\<close>

definition modelFaces :: "textures \<Rightarrow> faces option" where
  "modelFaces tex =
     (let topTex = resolve tex [''top'', ''top_face'', ''up'', ''cap'', ''end'', ''all''];
          sideTex = resolve tex [''side'', ''side_face'', ''texture'', ''all'', ''wall''];
          frontTex = resolve tex [''front'', ''face'', ''front_face'', ''south'', ''north'', ''side''];
          first = orElse topTex (orElse sideTex (orElse frontTex (firstPlainString tex)))
      in case first of
           None \<Rightarrow> None
         | Some f \<Rightarrow>
             if f \<noteq> []
             then Some \<lparr>topRef = orString topTex f, sideRef = orString sideTex f,
                        frontRef = orString frontTex f\<rparr>
             else None)"

text \<open>
  \<open>c.replace(/\\/g, '/')\<close> is \<open>slashes\<close>. \<open>s.replace(/.*\/icons\//, 'icons/')\<close> is
  \<open>replaceIconsPrefix\<close>: the regular expression is tried at each start position from the
  left; at a position, the greedy \<open>.*\<close> runs over as many characters other than line
  terminators as it can and backs off to the last \<open>/icons/\<close> it can reach
  (\<open>greedyIcons\<close>, which returns what follows the match); the first match is replaced.
\<close>

definition slashes :: "string \<Rightarrow> string" where
  "slashes s = map (\<lambda>c. if c = CHR 0x5C then CHR ''/'' else c) s"

definition isLineTerminator :: "char \<Rightarrow> bool" where
  "isLineTerminator c \<longleftrightarrow> c = CHR 0x0A \<or> c = CHR 0x0D"

fun greedyIcons :: "string \<Rightarrow> string option" where
  "greedyIcons [] = None"
| "greedyIcons (c # cs) =
     (case (if isLineTerminator c then None else greedyIcons cs) of
        Some r \<Rightarrow> Some r
      | None \<Rightarrow> if take 7 (c # cs) = ''/icons/'' then Some (drop 7 (c # cs)) else None)"

fun replaceIconsPrefix :: "string \<Rightarrow> string" where
  "replaceIconsPrefix [] = []"
| "replaceIconsPrefix (c # cs) =
     (case greedyIcons (c # cs) of
        Some r \<Rightarrow> ''icons/'' @ r
      | None \<Rightarrow> c # replaceIconsPrefix cs)"

text \<open>The loop \<open>for (const c of candidates)\<close> of \<open>resolveTexRef\<close>, and the function.\<close>

fun firstExisting :: "string set \<Rightarrow> string list \<Rightarrow> string option" where
  "firstExisting disk [] = None"
| "firstExisting disk (c # cs) =
     (if c \<in> disk then Some (replaceIconsPrefix (slashes c)) else firstExisting disk cs)"

definition resolveTexRef :: "node \<Rightarrow> string set \<Rightarrow> string \<Rightarrow> string option" where
  "resolveTexRef nd disk texRef =
     (if texRef = [] then None
      else case indexOf texRef CHR '':'' of
        None \<Rightarrow> None
      | Some colon \<Rightarrow>
          let texNs = take colon texRef;
              texPath = drop (colon + 1) texRef;
              candidates =
                [path_join nd [iconsDir nd, texNs, texPath @ ''.png''],
                 path_join nd [iconsDir nd, texNs, ''block'', path_basename nd texPath @ ''.png'']]
          in firstExisting disk candidates)"

text \<open>
  \<open>if (!store[k]) store[k] = v\<close> is \<open>insertIfAbsent\<close>; \<open>if (v) store[k] = v\<close> is
  \<open>setIfTruthy\<close>.
\<close>

definition insertIfAbsent :: "store \<Rightarrow> string \<Rightarrow> string \<Rightarrow> store" where
  "insertIfAbsent st k v = (if \<not> truthy (st k) then st(k \<mapsto> v) else st)"

definition setIfTruthy :: "store \<Rightarrow> string \<Rightarrow> string option \<Rightarrow> store" where
  "setIfTruthy st k v = (case v of None \<Rightarrow> st | Some u \<Rightarrow> if u \<noteq> [] then st(k \<mapsto> u) else st)"

text \<open>
  The body of \<open>for (const [key, faces] of Object.entries(blockModels))\<close> (lines 453 to
  471): the block store after one model has been resolved.
\<close>

definition resolveModel :: "node \<Rightarrow> string set \<Rightarrow> store \<Rightarrow> store \<Rightarrow> string \<times> faces \<Rightarrow> store" where
  "resolveModel nd disk items blocks entry =
     (let key = fst entry; fcs = snd entry in
      if truthy (items key) then blocks
      else
        let topUrl = resolveTexRef nd disk (topRef fcs);
            sideUrl = resolveTexRef nd disk (sideRef fcs);
            frontUrl = resolveTexRef nd disk (frontRef fcs);
            anyUrl = orElse topUrl (orElse sideUrl frontUrl)
        in case anyUrl of
             None \<Rightarrow> blocks
           | Some u \<Rightarrow>
               if u = [] then blocks
               else
                 let b0 = insertIfAbsent blocks key u;
                     b1 = setIfTruthy b0 (key @ ''#top'') topUrl;
                     b2 = setIfTruthy b1 (key @ ''#side'') sideUrl
                 in setIfTruthy b2 (key @ ''#front'') frontUrl)"

text \<open>
  An archive entry as the scan of a mod archive sees it, after the path patterns have
  been matched: a texture \<open>assets/{ns}/textures/{category}/{subpath}\<close> with what
  \<open>extractEntry\<close> returns for it; a block model \<open>assets/{ns}/models/block/{rel}\<close> with
  its \<open>textures\<close> object (\<open>None\<close> when extraction or \<open>JSON.parse\<close> fails, the empty list
  for \<open>json.textures || {}\<close>); an entity texture; anything else. The state of the scan is
  the icons directory and the three registries.
\<close>

datatype jar_entry =
    Texture string string string "buffer option"
  | BlockModel string string "textures option"
  | Entity string string "buffer option"
  | Other

record scan_state =
  files :: "string set"
  itemPaths :: store
  blockPaths :: store
  blockModels :: "(string \<times> faces) list"

text \<open>\<open>subpath.slice(0, -4).replace(/\//g, '_')\<close>\<close>

definition flatNameOf :: "string \<Rightarrow> string" where
  "flatNameOf subpath = replaceAll CHR ''/'' ''_'' (take (length subpath - 4) subpath)"

text \<open>
  Registration of a direct texture (lines 245 to 250 of the newer extractor, 244 to 249
  of the older one): the basename key and, when it differs, the flattened key, each
  only if the store has no truthy value there.
\<close>

definition registerKeys :: "node \<Rightarrow> store \<Rightarrow> string \<Rightarrow> string \<Rightarrow> string \<Rightarrow> store" where
  "registerKeys nd st ns subpath relUrl =
     (let basename = path_basename_ext nd subpath ''.png'';
          flatName = flatNameOf subpath;
          s1 = insertIfAbsent st (ns @ '':'' @ basename) relUrl
      in if flatName \<noteq> basename then insertIfAbsent s1 (ns @ '':'' @ flatName) relUrl else s1)"

definition registerTexture :: "node \<Rightarrow> scan_state \<Rightarrow> string \<Rightarrow> string \<Rightarrow> string \<Rightarrow> scan_state" where
  "registerTexture nd st ns category subpath =
     (let relUrl = slashes (''icons/'' @ ns @ ''/'' @ category @ ''/'' @ subpath) in
      if category = ''item'' \<or> category = ''items''
      then st\<lparr>itemPaths := registerKeys nd (itemPaths st) ns subpath relUrl\<rparr>
      else st\<lparr>blockPaths := registerKeys nd (blockPaths st) ns subpath relUrl\<rparr>)"

text \<open>Registration of an entity texture (lines 303 to 312): into the block store only.\<close>

definition registerEntity :: "node \<Rightarrow> scan_state \<Rightarrow> string \<Rightarrow> string \<Rightarrow> scan_state" where
  "registerEntity nd st ns subpath =
     (let relUrl = slashes (''icons/'' @ ns @ ''/entity/'' @ subpath);
          basename = path_basename_ext nd subpath ''.png'';
          flatName = flatNameOf subpath;
          k1 = ns @ '':'' @ basename;
          k2 = ns @ '':'' @ flatName;
          b1 = (if \<not> truthy (itemPaths st k1) \<and> \<not> truthy (blockPaths st k1)
                then (blockPaths st)(k1 \<mapsto> relUrl) else blockPaths st);
          b2 = (if flatName \<noteq> basename \<and> \<not> truthy (itemPaths st k2) \<and> \<not> truthy (b1 k2)
                then b1(k2 \<mapsto> relUrl) else b1)
      in st\<lparr>blockPaths := b2\<rparr>)"

text \<open>
  The body of \<open>for (const entry of entries)\<close> in the scan of the mod archives. A texture
  whose file is not there yet and cannot be extracted is skipped (\<open>continue\<close>); a block
  model is parsed only for a key that has no faces yet.
\<close>

fun scanEntry :: "node \<Rightarrow> scan_state \<Rightarrow> jar_entry \<Rightarrow> scan_state" where
  "scanEntry nd st (Texture ns category subpath extracted) =
     (let outFile = path_join nd [iconsDir nd, ns, category, subpath] in
      if outFile \<notin> files st
      then (case extracted of
              None \<Rightarrow> st
            | Some bytes \<Rightarrow>
                registerTexture nd (st\<lparr>files := insert outFile (files st)\<rparr>) ns category subpath)
      else registerTexture nd st ns category subpath)"
| "scanEntry nd st (BlockModel ns rel parsed) =
     (let key = ns @ '':'' @ path_basename_ext nd rel ''.json'' in
      if map_of (blockModels st) key \<noteq> None then st
      else case parsed of
             None \<Rightarrow> st
           | Some tex \<Rightarrow>
               (case modelFaces tex of
                  None \<Rightarrow> st
                | Some fcs \<Rightarrow> st\<lparr>blockModels := blockModels st @ [(key, fcs)]\<rparr>))"
| "scanEntry nd st (Entity ns subpath extracted) =
     (let outFile = path_join nd [iconsDir nd, ns, ''entity'', subpath];
          st1 = (if outFile \<notin> files st \<and> extracted \<noteq> None
                 then st\<lparr>files := insert outFile (files st)\<rparr> else st)
      in registerEntity nd st1 ns subpath)"
| "scanEntry nd st Other = st"

text \<open>
  The archives in scan order, the resolution of the block models against the stores, and
  the merge \<open>Object.assign({}, blockPaths, itemPaths)\<close>. The scan of the base game's
  archive, of the geometry descriptors and of the loose asset directories is left out:
  no property below is about them.
\<close>

definition scanJars :: "node \<Rightarrow> scan_state \<Rightarrow> jar_entry list list \<Rightarrow> scan_state" where
  "scanJars nd st jars = foldl (\<lambda>s jar. foldl (scanEntry nd) s jar) st jars"

definition resolveModels :: "node \<Rightarrow> scan_state \<Rightarrow> scan_state" where
  "resolveModels nd st =
     st\<lparr>blockPaths :=
          foldl (resolveModel nd (files st) (itemPaths st)) (blockPaths st) (blockModels st)\<rparr>"

definition mergeManifest :: "store \<Rightarrow> store \<Rightarrow> store" where
  "mergeManifest blockStore itemStore = blockStore ++ itemStore"

definition emptyScan :: scan_state where
  "emptyScan = \<lparr>files = {}, itemPaths = Map.empty, blockPaths = Map.empty, blockModels = []\<rparr>"

definition extractManifest :: "node \<Rightarrow> jar_entry list list \<Rightarrow> store" where
  "extractManifest nd jars =
     (let st = resolveModels nd (scanJars nd emptyScan jars)
      in mergeManifest (blockPaths st) (itemPaths st))"

text \<open>Every path of a store is a non-empty string.\<close>

definition nonEmptyValues :: "store \<Rightarrow> bool" where
  "nonEmptyValues st \<longleftrightarrow> (\<forall>k v. st k = Some v \<longrightarrow> v \<noteq> [])"

text \<open>
  Concrete archives: one with a block texture and a block model whose textures mapping
  has only a \<open>side\<close> reference; a textures mapping with a \<open>side\<close> reference and an alias;
  two archives that both provide an item texture for \<open>mod:gem\<close>.
\<close>

definition demoJar :: "jar_entry list" where
  "demoJar = [Texture ''mod'' ''block'' ''foo.png'' (Some [1, 2, 3]),
              BlockModel ''mod'' ''machine.json'' (Some [(''side'', JString ''mod:block/foo'')])]"

definition sideOnly :: textures where
  "sideOnly = [(''particle'', JString ''#side''), (''side'', JString ''mod:block/foo'')]"

definition gemFirst :: "jar_entry list" where
  "gemFirst = [Texture ''mod'' ''item'' ''gem.png'' (Some [1])]"

definition gemSecond :: "jar_entry list" where
  "gemSecond = [Texture ''mod'' ''item'' ''shiny/gem.png'' (Some [2]),
                Texture ''mod'' ''item'' ''gem.png'' (Some [3])]"

section \<open>Archive reader: properties\<close>

lemma eocdScan_none:
  "(\<And>j. j \<le> i \<Longrightarrow> \<not> sigEOCD buf j) \<Longrightarrow> eocdScan buf i = - 1"
  by (induction i) auto

lemma eocdScan_found:
  "sigEOCD buf p \<Longrightarrow> p \<le> i \<Longrightarrow> (\<And>j. p < j \<Longrightarrow> j \<le> i \<Longrightarrow> \<not> sigEOCD buf j)
    \<Longrightarrow> eocdScan buf i = int p"
proof (induction i)
  case 0
  then show ?case by simp
next
  case (Suc i)
  show ?case
  proof (cases "p = Suc i")
    case True
    with Suc.prems show ?thesis by simp
  next
    case False
    with Suc.prems have "p \<le> i" by simp
    moreover have "\<not> sigEOCD buf (Suc i)" using Suc.prems False by simp
    ultimately show ?thesis using Suc by simp
  qed
qed

subsection \<open>Locating the end-of-central-directory record\<close>

lemma sigEOCD_pad: "sigEOCD (eocdMagic @ replicate n 0) i \<longleftrightarrow> i = 0"
proof (cases i)
  case 0
  then show ?thesis by (simp add: sigEOCD_def byteAt_def eocdMagic_def)
next
  case (Suc k)
  then show ?thesis
    by (auto simp: sigEOCD_def byteAt_def eocdMagic_def nth_append nth_Cons
        split: nat.splits if_splits)
qed

lemma sig_positions_pad:
  "filter (sigEOCD (eocdMagic @ replicate n 0)) [0..<length (eocdMagic @ replicate n 0)] = [0]"
proof -
  let ?b = "eocdMagic @ replicate n 0"
  have "[0..<length ?b] = 0 # [1..<length ?b]"
    by (simp add: eocdMagic_def upt_conv_Cons)
  moreover have "filter (sigEOCD ?b) [1..<length ?b] = []"
    by (simp add: sigEOCD_pad filter_empty_conv)
  ultimately show ?thesis by (simp add: sigEOCD_pad)
qed

text \<open>
  C3. \<open>findEOCD\<close> has no 64KB window: it scans every offset from \<open>length - 22\<close>
  down to 0. It returns the greatest offset \<open>p\<close> with \<open>p + 22 \<le> length\<close> at which the
  four signature bytes stand, however far from the end, and \<open>-1\<close> exactly when no such
  offset carries the signature (in particular for every buffer shorter than 22 bytes).
\<close>

theorem findEOCD_scans_whole_buffer:
  "(sigEOCD buf p \<and> p + 22 \<le> length buf \<and>
      (\<forall>j. p < j \<and> j + 22 \<le> length buf \<longrightarrow> \<not> sigEOCD buf j)
        \<longrightarrow> findEOCD buf = int p) \<and>
   ((\<forall>i. i + 22 \<le> length buf \<longrightarrow> \<not> sigEOCD buf i) \<longrightarrow> findEOCD buf = - 1)"
proof (intro conjI impI)
  assume h: "sigEOCD buf p \<and> p + 22 \<le> length buf \<and>
    (\<forall>j. p < j \<and> j + 22 \<le> length buf \<longrightarrow> \<not> sigEOCD buf j)"
  then have "eocdScan buf (length buf - 22) = int p"
    by (intro eocdScan_found) auto
  with h show "findEOCD buf = int p" by (simp add: findEOCD_def)
next
  assume h: "\<forall>i. i + 22 \<le> length buf \<longrightarrow> \<not> sigEOCD buf i"
  show "findEOCD buf = - 1"
  proof (cases "length buf < 22")
    case True
    then show ?thesis by (simp add: findEOCD_def)
  next
    case False
    then have "eocdScan buf (length buf - 22) = - 1"
      using h by (intro eocdScan_none) auto
    then show ?thesis by (simp add: findEOCD_def)
  qed
qed

theorem findEOCD_scans_whole_buffer_witness:
  "findEOCD ([1, 2] @ eocdMagic @ replicate 20 0) = 2 \<and> findEOCD (replicate 30 7) = - 1"
proof -
  let ?b = "[1, 2] @ eocdMagic @ replicate 20 0"
  have s: "sigEOCD ?b j \<longleftrightarrow> j = 2" for j
    by (auto simp: sigEOCD_def byteAt_def eocdMagic_def nth_Cons nth_append
        split: nat.splits if_splits)
  have n: "\<not> sigEOCD (replicate 30 7) i" for i
    by (simp add: sigEOCD_def byteAt_def)
  have "findEOCD ?b = int 2"
    using findEOCD_scans_whole_buffer [of ?b 2] s by (simp add: eocdMagic_def)
  moreover have "findEOCD (replicate 30 7) = - 1"
    using findEOCD_scans_whole_buffer [of "replicate 30 7"] n by blast
  ultimately show ?thesis by simp
qed

text \<open>
  The claim as written fails: in a buffer of 70004 bytes whose only signature stands at
  offset 0, more than 64KB + 22 bytes before the end, \<open>findEOCD\<close> still finds it.
\<close>

theorem findEOCD_window_counterexample:
  "filter (sigEOCD (eocdMagic @ replicate 70000 0))
      [0..<length (eocdMagic @ replicate 70000 0)] = [0] \<and>
   0 + 22 + 65536 < length (eocdMagic @ replicate 70000 0) \<and>
   findEOCD (eocdMagic @ replicate 70000 0) = 0"
proof -
  let ?b = "eocdMagic @ replicate 70000 0"
  have "eocdScan ?b (length ?b - 22) = int 0"
    by (rule eocdScan_found) (simp_all add: sigEOCD_pad)
  then have f: "findEOCD ?b = 0"
    by (simp add: findEOCD_def eocdMagic_def)
  have l: "0 + 22 + 65536 < length ?b"
    by (simp add: eocdMagic_def)
  from sig_positions_pad [of 70000] l f show ?thesis
    by (intro conjI)
qed

subsection \<open>Reading the local header\<close>

lemma nat_or_push8: "a < 256 \<Longrightarrow> (a::nat) OR push_bit 8 b = a + 256 * b"
proof -
  assume a: "a < 256"
  have "a + push_bit 8 b = a OR push_bit 8 b"
  proof (rule disjunctive_add)
    fix n
    show "\<not> bit a n \<or> \<not> bit (push_bit 8 b) n"
    proof (cases "n < 8")
      case True
      then show ?thesis by (simp add: bit_push_bit_iff)
    next
      case False
      then have "2 ^ 8 \<le> (2::nat) ^ n" by (intro power_increasing) auto
      with a have "a < 2 ^ n" by simp
      then have "\<not> bit a n" by (simp add: bit_iff_odd)
      then show ?thesis by simp
    qed
  qed
  then show ?thesis by (simp add: push_bit_eq_mult)
qed

lemma unat_byte_less: "unat (a::byte) < 256"
  using unsigned_less [of a] by simp

lemma unat_or_push8:
  "unat ((ucast (a::byte) :: 32 word) OR push_bit 8 (ucast (b::byte))) = unat a + 256 * unat b"
proof -
  have ua: "unat (ucast a :: 32 word) = unat a"
    by (simp add: unsigned_ucast_eq take_bit_nat_eq_self_iff) (use unat_byte_less [of a] in simp)
  have ub: "unat (ucast b :: 32 word) = unat b"
    by (simp add: unsigned_ucast_eq take_bit_nat_eq_self_iff) (use unat_byte_less [of b] in simp)
  have "push_bit 8 (unat b) < 2 ^ 32"
    using unat_byte_less [of b] by (simp add: push_bit_eq_mult)
  then have pb: "unat (push_bit 8 (ucast b :: 32 word)) = push_bit 8 (unat b)"
    by (simp add: unsigned_push_bit_eq ub take_bit_nat_eq_self_iff)
  show ?thesis
    by (simp add: unsigned_or_eq ua pb nat_or_push8 unat_byte_less)
qed

lemma readUInt16LE_in_range:
  "off + 1 < length b \<Longrightarrow> readUInt16LE b off = unat (b ! off) + 256 * unat (b ! (off + 1))"
  by (simp add: readUInt16LE_def byteAt_def toInt32_def unat_or_push8)

lemma unat_byte_of_nat: "n < 256 \<Longrightarrow> unat (word_of_nat n :: byte) = n"
  by (simp add: unat_of_nat)

lemma readUInt16LE_le16:
  assumes "n < 65536" "length pre = off"
  shows "readUInt16LE (pre @ le16 n @ post) off = n"
proof -
  from assms(1) have d: "n div 256 < 256" by simp
  have "readUInt16LE (pre @ le16 n @ post) off =
        unat (word_of_nat (n mod 256) :: byte) + 256 * unat (word_of_nat (n div 256) :: byte)"
    using assms(2) by (simp add: readUInt16LE_in_range le16_def nth_append)
  also have "\<dots> = n" using d by (simp add: unat_byte_of_nat)
  finally show ?thesis .
qed

lemma dataStart_localRecord:
  assumes "length fixed = 22" "length nm < 65536" "length extra < 65536"
    and "localOffset e = length pre"
  shows "dataStart (pre @ localRecord fixed nm extra payload @ post) e
           = length pre + 30 + length nm + length extra"
proof -
  let ?sig = "[0x50, 0x4b, 0x03, 0x04] :: buffer"
  let ?buf = "pre @ localRecord fixed nm extra payload @ post"
  have a: "?buf = (pre @ ?sig @ fixed) @ le16 (length nm)
                  @ (le16 (length extra) @ nm @ extra @ payload @ post)"
    by (simp add: localRecord_def)
  have b: "?buf = (pre @ ?sig @ fixed @ le16 (length nm)) @ le16 (length extra)
                  @ (nm @ extra @ payload @ post)"
    by (simp add: localRecord_def)
  have n: "readUInt16LE ?buf (length pre + 26) = length nm"
    unfolding a using assms by (intro readUInt16LE_le16) simp_all
  have x: "readUInt16LE ?buf (length pre + 28) = length extra"
    unfolding b using assms by (intro readUInt16LE_le16) (simp_all add: le16_def)
  show ?thesis
    by (simp add: dataStart_def Let_def assms(4) n x)
qed

lemma slice_localRecord:
  assumes "length fixed = 22"
  shows "slice (pre @ localRecord fixed nm extra payload @ post)
           (length pre + 30 + length nm + length extra)
           (length pre + 30 + length nm + length extra + length payload) = payload"
proof -
  let ?hd = "pre @ [0x50, 0x4b, 0x03, 0x04] @ fixed @ le16 (length nm) @ le16 (length extra)
             @ nm @ extra"
  have e: "pre @ localRecord fixed nm extra payload @ post = ?hd @ payload @ post"
    by (simp add: localRecord_def)
  have l: "length ?hd = length pre + 30 + length nm + length extra"
    using assms by (simp add: le16_def)
  have "drop (length ?hd) (?hd @ payload @ post) = payload @ post"
    by (rule append_eq_conv_conj [THEN iffD1, THEN conjunct2, symmetric]) (rule refl)
  then show ?thesis
    unfolding e slice_def l [symmetric] by simp
qed


text \<open>
  On a record laid out by a writer, anywhere in a buffer, \<open>extractEntry\<close> finds the data
  behind the name and extra field of the local header.
\<close>

lemma extractEntry_localRecord:
  assumes "length fixed = 22" "length nm < 65536" "length extra < 65536"
    and "localOffset e = length pre" "compSize e = length payload"
  shows "extractEntry z (pre @ localRecord fixed nm extra payload @ post) e =
           (if compression e = 0 then Some payload
            else if compression e = 8 then z payload else None)"
proof -
  have "length pre + 30 \<le> length (pre @ localRecord fixed nm extra payload @ post)"
    using assms(1) by (simp add: localRecord_def le16_def)
  then show ?thesis
    using assms
    by (simp add: extractEntry_def Let_def dataStart_localRecord slice_localRecord)
qed




text \<open>
  C10. For every entry whose compression method is neither 0 nor 8, \<open>extractEntry\<close>
  returns \<open>null\<close>, whatever the buffer and whatever zlib would do: no bytes are returned,
  and the path makes no call that can throw.
\<close>

theorem extractEntry_unsupported_method:
  "compression e \<noteq> 0 \<Longrightarrow> compression e \<noteq> 8 \<Longrightarrow> extractEntry z buf e = None"
  by (simp add: extractEntry_def Let_def)

theorem extractEntry_unsupported_method_witness:
  "extractEntry inflateStored (localRecord (replicate 22 0) [0x61] [] [1, 2, 3])
      \<lparr>name = ''a'', compression = 12, compSize = 3, localOffset = 0\<rparr> = None"
  using extractEntry_unsupported_method
    [where e = "\<lparr>name = ''a'', compression = 12, compSize = 3, localOffset = 0\<rparr>"
       and z = inflateStored and buf = "localRecord (replicate 22 0) [0x61] [] [1, 2, 3]"]
  by simp

section \<open>Atlas packer: properties\<close>

lemma mathFloorDiv_eq: "mathFloorDiv a b = a div b"
  by (simp add: mathFloorDiv_def floor_divide_of_nat_eq)

lemma packLoop_skip:
  "sharp f = None \<Longrightarrow> packLoop sharp i ((ident, f) # rest) st = packLoop sharp (Suc i) rest st"
  by (simp add: Let_def)

lemma packLoop_push:
  "sharp f = Some buf \<Longrightarrow>
     packLoop sharp i ((ident, f) # rest) st = packLoop sharp (Suc i) rest (pushTile st ident buf (slot i))"
  by (simp add: Let_def pushTile_def slot_def mathFloorDiv_eq)

lemma manifest_pushTile: "manifest (pushTile st ident buf p) = (manifest st)(ident \<mapsto> p)"
  by (simp add: pushTile_def Let_def)








lemma packLoop_manifest_sound:
  "manifest (packLoop sharp i xs st) k = Some p \<Longrightarrow>
     manifest st k = Some p \<or>
     (\<exists>j<length xs. fst (xs ! j) = k \<and> sharp (snd (xs ! j)) \<noteq> None \<and> p = slot (i + j))"
proof (induction xs arbitrary: i st)
  case Nil
  then show ?case by simp
next
  case (Cons e rest)
  obtain ident f where e: "e = (ident, f)" by (cases e)
  have shift: "\<exists>j<length (e # rest). fst ((e # rest) ! j) = k \<and>
        sharp (snd ((e # rest) ! j)) \<noteq> None \<and> p = slot (i + j)"
    if "\<exists>j<length rest. fst (rest ! j) = k \<and> sharp (snd (rest ! j)) \<noteq> None \<and> p = slot (Suc i + j)"
  proof -
    from that obtain j where "j < length rest" "fst (rest ! j) = k"
      "sharp (snd (rest ! j)) \<noteq> None" "p = slot (Suc i + j)" by blast
    then have "Suc j < length (e # rest) \<and> fst ((e # rest) ! Suc j) = k \<and>
        sharp (snd ((e # rest) ! Suc j)) \<noteq> None \<and> p = slot (i + Suc j)" by simp
    then show ?thesis by blast
  qed
  show ?case
  proof (cases "sharp f")
    case None
    with Cons.prems have "manifest (packLoop sharp (Suc i) rest st) k = Some p"
      unfolding e by (simp only: packLoop_skip)
    from Cons.IH [OF this] shift show ?thesis by blast
  next
    case (Some buf)
    with Cons.prems have "manifest (packLoop sharp (Suc i) rest (pushTile st ident buf (slot i))) k = Some p"
      unfolding e by (simp only: packLoop_push)
    from Cons.IH [OF this] show ?thesis
    proof
      assume a: "manifest (pushTile st ident buf (slot i)) k = Some p"
      show ?thesis
      proof (cases "k = ident")
        case True
        with a have "p = slot i" by (simp add: manifest_pushTile)
        with True Some e have "0 < length (e # rest) \<and> fst ((e # rest) ! 0) = k \<and>
          sharp (snd ((e # rest) ! 0)) \<noteq> None \<and> p = slot (i + 0)" by simp
        then show ?thesis by blast
      next
        case False
        with a show ?thesis by (simp add: manifest_pushTile)
      qed
    next
      assume "\<exists>j<length rest. fst (rest ! j) = k \<and> sharp (snd (rest ! j)) \<noteq> None \<and> p = slot (Suc i + j)"
      with shift show ?thesis by blast
    qed
  qed
qed



lemma slot_inside:
  assumes "j < n"
  shows "TILE dvd fst (slot j) \<and> TILE dvd snd (slot j) \<and>
         fst (slot j) + TILE \<le> COLS * TILE \<and> snd (slot j) + TILE \<le> mathCeilDiv n COLS * TILE"
proof -
  have "real (j div COLS) \<le> real j / real COLS" by (rule of_nat_div_le_of_nat)
  also have "\<dots> < real n / real COLS" using assms by (simp add: COLS_def)
  also have "\<dots> \<le> of_int \<lceil>real n / real COLS\<rceil>" by (rule le_of_int_ceiling)
  finally have "int (j div COLS) < \<lceil>real n / real COLS\<rceil>" by linarith
  then have r: "j div COLS < mathCeilDiv n COLS" by (simp add: mathCeilDiv_def)
  then have "Suc (j div COLS) * TILE \<le> mathCeilDiv n COLS * TILE"
    by (intro mult_le_mono1) simp
  moreover have "Suc (j mod COLS) * TILE \<le> COLS * TILE"
    by (intro mult_le_mono1) (simp add: COLS_def Suc_le_eq)
  ultimately show ?thesis by (simp add: slot_def)
qed

lemma mathCeilDiv_pos: "n \<noteq> 0 \<Longrightarrow> 0 < mathCeilDiv n COLS"
proof -
  assume "n \<noteq> 0"
  then have "0 < real n / real COLS" by (simp add: COLS_def)
  then have "0 < \<lceil>real n / real COLS\<rceil>" by simp
  then show ?thesis by (simp add: mathCeilDiv_def)
qed

lemma mathCeilDiv_le: "n \<le> 65472 \<Longrightarrow> mathCeilDiv n COLS \<le> 1023"
proof -
  assume "n \<le> 65472"
  then have "real n / real COLS \<le> 1023" by (simp add: COLS_def)
  then have "\<lceil>real n / real COLS\<rceil> \<le> 1023" by (simp add: ceiling_le_iff)
  then show ?thesis by (simp add: mathCeilDiv_def)
qed

lemma mathCeilDiv_gt: "65472 < n \<Longrightarrow> 1023 < mathCeilDiv n COLS"
proof -
  assume "65472 < n"
  then have "1023 < real n / real COLS" by (simp add: COLS_def)
  then have "1023 < \<lceil>real n / real COLS\<rceil>" by (simp add: less_ceiling_iff)
  then show ?thesis unfolding mathCeilDiv_def by linarith
qed

lemma buildAtlas_cases:
  "buildAtlas sharp xs =
     (if xs = [] then Inl RawInputRejected
      else if 65472 < length xs then Inl TooLargeForWebP
      else Inr (packedAtlas sharp xs))"
proof (cases "xs = []")
  case True
  then show ?thesis by (simp add: buildAtlas_def Let_def mathCeilDiv_def)
next
  case False
  then have p: "0 < mathCeilDiv (length xs) COLS" by (intro mathCeilDiv_pos) simp
  show ?thesis
  proof (cases "65472 < length xs")
    case True
    from mathCeilDiv_gt [OF this] have "16383 < mathCeilDiv (length xs) COLS * 16" by simp
    with p False True show ?thesis
      by (simp add: buildAtlas_def Let_def TILE_def COLS_def WEBP_MAX_def)
  next
    case big: False
    then have "mathCeilDiv (length xs) COLS \<le> 1023" by (intro mathCeilDiv_le) simp
    then have "\<not> 16383 < mathCeilDiv (length xs) COLS * 16" by simp
    with p False big show ?thesis
      by (simp add: buildAtlas_def packedAtlas_def Let_def TILE_def COLS_def WEBP_MAX_def)
  qed
qed

lemma buildAtlas_Inr:
  "buildAtlas sharp xs = Inr A \<longleftrightarrow> xs \<noteq> [] \<and> length xs \<le> 65472 \<and> A = packedAtlas sharp xs"
  by (auto simp: buildAtlas_cases)

lemma demo_eval:
  "buildAtlas demoSharp demoIcons = Inr
    (\<lparr>rawWidth = 1024, rawHeight = 16,
      tiles = [\<lparr>tileInput = ''fx'', tileLeft = 0, tileTop = 0\<rparr>,
               \<lparr>tileInput = ''fz'', tileLeft = 32, tileTop = 0\<rparr>]\<rparr>,
     \<lparr>tile = 16, cols = 64, rows = 1, width = 1024, height = 16,
      icons = [''a:x'' \<mapsto> (0, 0), ''a:z'' \<mapsto> (32, 0)]\<rparr>)"
  by (simp add: buildAtlas_def demoSharp_def demoIcons_def Let_def mathFloorDiv_eq mathCeilDiv_def
      TILE_def COLS_def WEBP_MAX_def)





lemma packedAtlas_icons_inside:
  fixes xs :: "(string \<times> 'f) list" and sharp :: "'f \<Rightarrow> 'b option"
  assumes "icons (snd (packedAtlas sharp xs)) k = Some (x, y)"
  shows "tile (snd (packedAtlas sharp xs)) dvd x \<and> tile (snd (packedAtlas sharp xs)) dvd y \<and>
         x + tile (snd (packedAtlas sharp xs)) \<le> width (snd (packedAtlas sharp xs)) \<and>
         y + tile (snd (packedAtlas sharp xs)) \<le> height (snd (packedAtlas sharp xs)) \<and>
         x + tile (snd (packedAtlas sharp xs)) \<le> rawWidth (fst (packedAtlas sharp xs)) \<and>
         y + tile (snd (packedAtlas sharp xs)) \<le> rawHeight (fst (packedAtlas sharp xs))"
proof -
  let ?st0 = "\<lparr>base = [], composites = [], manifest = Map.empty\<rparr> :: 'b pack_state"
  from assms have "manifest (packLoop sharp 0 xs ?st0) k = Some (x, y)"
    by (simp add: packedAtlas_def Let_def)
  from packLoop_manifest_sound [OF this] obtain j where
    j: "j < length xs" "(x, y) = slot (0 + j)" by auto
  from slot_inside [OF j(1)] j(2) [symmetric] show ?thesis
    by (simp add: packedAtlas_def Let_def)
qed





text \<open>
  The claim as written fails at both ends: for the empty list there is no canvas of
  height \<open>ceil(0/64)*16 = 0\<close> and no manifest, the canvas being rejected before the loop;
  for 65473 icons (1024 rows, 16384 pixels) the canvas cannot be saved as WebP and the
  manifest is never written.
\<close>

theorem buildAtlas_bounds_counterexample:
  "buildAtlas demoSharp [] = Inl RawInputRejected \<and>
   buildAtlas demoSharp (replicate 65473 (''a:x'', ''fx'')) = Inl TooLargeForWebP"
  by (simp add: buildAtlas_cases)




text \<open>
  C9. Every coordinate pair of the icons mapping that \<open>buildAtlas\<close> returns lies inside
  the canvas: \<open>x\<close> and \<open>y\<close> are (natural, hence non-negative) multiples of the tile
  size, and a full tile at \<open>(x, y)\<close> fits: \<open>x + tile \<le> width\<close> and \<open>y + tile \<le> height\<close>,
  for the manifest's fields and for the canvas's own size.
\<close>

theorem atlas_icons_inside_canvas:
  fixes xs :: "(string \<times> 'f) list" and sharp :: "'f \<Rightarrow> 'b option"
  assumes "buildAtlas sharp xs = Inr A" and "icons (snd A) k = Some (x, y)"
  shows "tile (snd A) dvd x \<and> tile (snd A) dvd y \<and>
         x + tile (snd A) \<le> width (snd A) \<and>
         y + tile (snd A) \<le> height (snd A) \<and>
         x + tile (snd A) \<le> rawWidth (fst A) \<and>
         y + tile (snd A) \<le> rawHeight (fst A)"
proof -
  from assms(1) have A: "A = packedAtlas sharp xs" by (simp add: buildAtlas_Inr)
  from assms(2) show ?thesis unfolding A by (rule packedAtlas_icons_inside)
qed

theorem atlas_icons_inside_canvas_witness:
  "(case buildAtlas demoSharp demoIcons of
      Inl e \<Rightarrow> False
    | Inr A \<Rightarrow>
        icons (snd A) ''a:z'' = Some (32, 0) \<and>
        16 dvd (32::nat) \<and> 32 + 16 \<le> width (snd A) \<and> 0 + 16 \<le> height (snd A) \<and>
        32 + 16 \<le> rawWidth (fst A) \<and> 0 + 16 \<le> rawHeight (fst A))"
proof -
  let ?A = "(\<lparr>rawWidth = 1024, rawHeight = 16,
      tiles = [\<lparr>tileInput = ''fx'', tileLeft = 0, tileTop = 0\<rparr>,
               \<lparr>tileInput = ''fz'', tileLeft = 32, tileTop = 0\<rparr>]\<rparr>,
     \<lparr>tile = 16, cols = 64, rows = 1, width = 1024, height = 16,
      icons = [''a:x'' \<mapsto> (0, 0), ''a:z'' \<mapsto> (32, 0)]\<rparr>)"
  have i: "icons (snd ?A) ''a:z'' = Some (32, 0)" by simp
  from atlas_icons_inside_canvas [OF demo_eval i] i show ?thesis
    by (simp add: demo_eval)
qed

section \<open>Icon lookup: properties\<close>

lemma indexOf_append: "c \<notin> set ns \<Longrightarrow> indexOf (ns @ c # rest) c = Some (length ns)"
  by (induction ns) auto

lemma tryVariants_find:
  "tryVariants nd disk m vs =
     (case find (\<lambda>v. truthy (m v) \<and> iconAbsPath nd (the (m v)) \<in> disk) vs of
        None \<Rightarrow> None | Some v \<Rightarrow> Some (iconAbsPath nd (the (m v))))"
  by (induction vs) (auto simp: truthy_def split: option.splits)

lemma findIconPath_find:
  assumes "CHR '':'' \<notin> set ns"
  shows "findIconPath nd disk (ns @ '':'' @ nm) m =
     (case find (\<lambda>v. truthy (m v) \<and> iconAbsPath nd (the (m v)) \<in> disk)
             [ns @ '':'' @ nm, ns @ '':'' @ stripPng (lastSegment nm), ns @ '':'' @ nm @ ''_item''] of
        None \<Rightarrow> None | Some v \<Rightarrow> Some (iconAbsPath nd (the (m v))))"
  using indexOf_append [OF assms, of nm]
  by (simp add: findIconPath_def Let_def tryVariants_find del: tryVariants.simps)

lemma lastSegment_plain: "CHR ''/'' \<notin> set nm \<Longrightarrow> lastSegment nm = nm"
proof -
  assume "CHR ''/'' \<notin> set nm"
  then have "\<forall>x\<in>set (rev nm). x \<noteq> CHR ''/''" by auto
  then have "takeWhile (\<lambda>c. c \<noteq> CHR ''/'') (rev nm) = rev nm"
    by (rule takeWhile_eq_all_conv [THEN iffD2])
  then show ?thesis by (simp only: lastSegment_def rev_rev_ident)
qed

text \<open>
  C7. For every identifier \<open>ns:name\<close> (the namespace is what stands before the first
  colon), \<open>findIconPath\<close> tries exactly three spellings in order: the exact id,
  \<open>{ns}:{basename}\<close> with the basename of the name (path prefix and \<open>.png\<close> suffix
  stripped), and \<open>{ns}:{name}_item\<close> with the name as written. It returns the path of
  the first spelling whose manifest entry is truthy and points at an existing file, and
  nothing if there is none. The third spelling is \<open>{ns}:{basename}_item\<close> whenever the
  name has no slash and no \<open>.png\<close> suffix.
\<close>

theorem findIconPath_variants:
  assumes "CHR '':'' \<notin> set ns"
  shows "findIconPath nd disk (ns @ '':'' @ nm) m =
     (case find (\<lambda>v. truthy (m v) \<and> iconAbsPath nd (the (m v)) \<in> disk)
             [ns @ '':'' @ nm, ns @ '':'' @ stripPng (lastSegment nm), ns @ '':'' @ nm @ ''_item''] of
        None \<Rightarrow> None | Some v \<Rightarrow> Some (iconAbsPath nd (the (m v))))
     \<and> (CHR ''/'' \<notin> set nm \<and> stripPng nm = nm \<longrightarrow>
          ns @ '':'' @ nm @ ''_item'' = ns @ '':'' @ stripPng (lastSegment nm) @ ''_item'')"
  using findIconPath_find [OF assms] by (simp add: lastSegment_plain)

theorem findIconPath_variants_witness:
  "findIconPath demoNode {''/app/icons/atm/textures/questpics/ae2.png''} (''atm'' @ '':'' @ ''textures/questpics/ae2.png'')
      [''atm:ae2'' \<mapsto> ''icons/atm/textures/questpics/ae2.png'']
    = Some ''/app/icons/atm/textures/questpics/ae2.png''"
proof -
  have "CHR '':'' \<notin> set ''atm''" by simp
  from findIconPath_variants [where ns = "''atm''" and nd = demoNode and nm = "''textures/questpics/ae2.png''"
      and disk = "{''/app/icons/atm/textures/questpics/ae2.png''}"
      and m = "[''atm:ae2'' \<mapsto> ''icons/atm/textures/questpics/ae2.png'']", OF this, THEN conjunct1]
  show ?thesis
    by (simp add: truthy_def iconAbsPath_def demoNode_def replaceAll_def lastSegment_def stripPng_def)
qed

text \<open>
  The claim as written fails: for \<open>atm:textures/questpics/ae2.png\<close>, with a manifest
  whose only entry is \<open>atm:ae2_item\<close> and whose file exists, the code finds nothing,
  where three spellings ending in \<open>{ns}:{basename}_item\<close> would find that file.
\<close>

theorem findIconPath_item_suffix_counterexample:
  "findIconPath demoNode {''/app/icons/atm/item/ae2_item.png''} ''atm:textures/questpics/ae2.png''
      [''atm:ae2_item'' \<mapsto> ''icons/atm/item/ae2_item.png''] = None \<and>
   findIconPathSpec demoNode {''/app/icons/atm/item/ae2_item.png''} ''atm:textures/questpics/ae2.png''
      [''atm:ae2_item'' \<mapsto> ''icons/atm/item/ae2_item.png''] = Some ''/app/icons/atm/item/ae2_item.png''"
  by (simp add: findIconPath_def findIconPathSpec_def Let_def iconAbsPath_def demoNode_def replaceAll_def
      lastSegment_def stripPng_def)

section \<open>Texture catalog and indirect resolution: properties\<close>

lemma resolve_absent: "\<forall>n\<in>set names. map_of tex n = None \<Longrightarrow> resolve tex names = None"
  by (induction names) auto

lemma resolve_skip:
  "\<forall>n\<in>set pre. map_of tex n = None \<Longrightarrow> resolve tex (pre @ names) = resolve tex names"
  by (induction pre) auto

lemma resolve_hit:
  "map_of tex n = Some (JString r) \<Longrightarrow> r \<noteq> [] \<Longrightarrow> \<not> startsWithHash r \<Longrightarrow>
     resolve tex (n # names) = Some r"
  by simp

lemma modelFaces_side_only:
  assumes side: "map_of tex ''side'' = Some (JString r)" "r \<noteq> []" "\<not> startsWithHash r"
    and absent: "\<forall>n\<in>set [''top'', ''top_face'', ''up'', ''cap'', ''end'', ''all'',
                    ''front'', ''face'', ''front_face'', ''south'', ''north'']. map_of tex n = None"
  shows "modelFaces tex = Some \<lparr>topRef = r, sideRef = r, frontRef = r\<rparr>"
proof -
  have t: "resolve tex [''top'', ''top_face'', ''up'', ''cap'', ''end'', ''all''] = None"
    using absent by (intro resolve_absent) simp
  have s: "resolve tex [''side'', ''side_face'', ''texture'', ''all'', ''wall''] = Some r"
    using side by (rule resolve_hit)
  have "resolve tex ([''front'', ''face'', ''front_face'', ''south'', ''north''] @ [''side''])
          = resolve tex [''side'']"
    using absent by (intro resolve_skip) simp
  then have f: "resolve tex [''front'', ''face'', ''front_face'', ''south'', ''north'', ''side''] = Some r"
    using resolve_hit [OF side, of "[]"] by simp
  show ?thesis
    unfolding modelFaces_def t s f
    using side(2) by (simp add: Let_def orElse_def truthy_def orString_def)
qed

lemma resolveModel_same_ref:
  assumes "\<not> truthy (items key)" "\<not> truthy (blocks key)"
    and "resolveTexRef nd disk r = Some u" "u \<noteq> []"
  shows "resolveModel nd disk items blocks (key, \<lparr>topRef = r, sideRef = r, frontRef = r\<rparr>)
           = blocks(key \<mapsto> u, key @ ''#top'' \<mapsto> u, key @ ''#side'' \<mapsto> u, key @ ''#front'' \<mapsto> u)"
  using assms
  by (simp add: resolveModel_def Let_def orElse_def truthy_def insertIfAbsent_def setIfTruthy_def)

text \<open>
  C1. For an identifier with no direct texture (no truthy entry under the bare key in
  either store) and a block model whose textures mapping has a usable \<open>side\<close> reference
  \<open>r\<close> and none of the keys tried for the top and front faces before \<open>side\<close>: the
  model's three faces all become \<open>r\<close>, because \<open>side\<close> is the last name tried for the
  front face and the first face found stands in for a missing one. When \<open>r\<close> resolves
  to an existing file with path \<open>u\<close>, resolution writes exactly four keys into the block
  store, the bare key, \<open>#top\<close>, \<open>#side\<close> and \<open>#front\<close>, all mapping to \<open>u\<close>.
\<close>

theorem side_only_model_writes_all_faces:
  assumes "map_of tex ''side'' = Some (JString r)" "r \<noteq> []" "\<not> startsWithHash r"
    and "\<forall>n\<in>set [''top'', ''top_face'', ''up'', ''cap'', ''end'', ''all'',
                    ''front'', ''face'', ''front_face'', ''south'', ''north'']. map_of tex n = None"
    and "\<not> truthy (items key)" "\<not> truthy (blocks key)"
    and "resolveTexRef nd disk r = Some u" "u \<noteq> []"
  shows "modelFaces tex = Some \<lparr>topRef = r, sideRef = r, frontRef = r\<rparr> \<and>
         resolveModel nd disk items blocks (key, \<lparr>topRef = r, sideRef = r, frontRef = r\<rparr>)
           = blocks(key \<mapsto> u, key @ ''#top'' \<mapsto> u, key @ ''#side'' \<mapsto> u, key @ ''#front'' \<mapsto> u)"
  using modelFaces_side_only [OF assms(1-4)]
    resolveModel_same_ref [where items = items and blocks = blocks and key = key, OF assms(5-8)]
  by simp

theorem side_only_model_writes_all_faces_witness:
  "modelFaces sideOnly = Some \<lparr>topRef = ''mod:block/foo'', sideRef = ''mod:block/foo'', frontRef = ''mod:block/foo''\<rparr> \<and>
   resolveModel demoNode {''/app/icons/mod/block/foo.png''} Map.empty Map.empty
      (''mod:machine'', \<lparr>topRef = ''mod:block/foo'', sideRef = ''mod:block/foo'', frontRef = ''mod:block/foo''\<rparr>)
     = [''mod:machine'' \<mapsto> ''icons/mod/block/foo.png'', ''mod:machine#top'' \<mapsto> ''icons/mod/block/foo.png'',
        ''mod:machine#side'' \<mapsto> ''icons/mod/block/foo.png'', ''mod:machine#front'' \<mapsto> ''icons/mod/block/foo.png'']"
proof -
  have r: "resolveTexRef demoNode {''/app/icons/mod/block/foo.png''} ''mod:block/foo'' = Some ''icons/mod/block/foo.png''"
    by (simp add: resolveTexRef_def demoNode_def iconsDir_def Let_def slashes_def isLineTerminator_def)
  have s: "map_of sideOnly ''side'' = Some (JString ''mod:block/foo'')"
    by (simp add: sideOnly_def)
  have a: "\<forall>n\<in>set [''top'', ''top_face'', ''up'', ''cap'', ''end'', ''all'',
                    ''front'', ''face'', ''front_face'', ''south'', ''north'']. map_of sideOnly n = None"
    by (simp add: sideOnly_def)
  from side_only_model_writes_all_faces [where tex = sideOnly and r = "''mod:block/foo''" and items = Map.empty and blocks = Map.empty
      and key = "''mod:machine''" and nd = demoNode and disk = "{''/app/icons/mod/block/foo.png''}"
      and u = "''icons/mod/block/foo.png''", OF s _ _ a _ _ r]
  show ?thesis by (auto simp: startsWithHash_def truthy_def)
qed

text \<open>
  The claim as written fails: an archive with the texture \<open>block/foo.png\<close> and a model
  \<open>machine\<close> whose textures mapping is \<open>{side: "mod:block/foo"}\<close> leaves \<open>mod:machine\<close>
  without a direct texture after the scan, and the manifest then has \<open>mod:machine#top\<close>
  and \<open>mod:machine#front\<close>, with the same path as \<open>mod:machine\<close> and \<open>mod:machine#side\<close>.
\<close>

theorem side_only_model_counterexample:
  "itemPaths (scanJars demoNode emptyScan [demoJar]) ''mod:machine'' = None \<and>
   blockPaths (scanJars demoNode emptyScan [demoJar]) ''mod:machine'' = None \<and>
   extractManifest demoNode [demoJar] ''mod:machine'' = Some ''icons/mod/block/foo.png'' \<and>
   extractManifest demoNode [demoJar] ''mod:machine#side'' = Some ''icons/mod/block/foo.png'' \<and>
   extractManifest demoNode [demoJar] ''mod:machine#top'' = Some ''icons/mod/block/foo.png'' \<and>
   extractManifest demoNode [demoJar] ''mod:machine#front'' = Some ''icons/mod/block/foo.png''"
  by (simp add: extractManifest_def demoJar_def demoNode_def scanJars_def emptyScan_def Let_def
      resolveModels_def mergeManifest_def iconsDir_def registerTexture_def registerKeys_def
      insertIfAbsent_def truthy_def flatNameOf_def replaceAll_def lastSegment_def stripExt_def
      slashes_def modelFaces_def orElse_def orString_def firstPlainString_def startsWithHash_def
      resolveModel_def resolveTexRef_def setIfTruthy_def isLineTerminator_def)

lemma insertIfAbsent_present: "truthy (st k) \<Longrightarrow> insertIfAbsent st k v = st"
  by (simp add: insertIfAbsent_def)

lemma insertIfAbsent_twice: "insertIfAbsent (insertIfAbsent st k v) k v = insertIfAbsent st k v"
  by (auto simp: insertIfAbsent_def)

lemma insertIfAbsent_keeps: "truthy (st k) \<Longrightarrow> insertIfAbsent st k' v k = st k"
  by (auto simp: insertIfAbsent_def)

lemma insertIfAbsent_truthy: "v \<noteq> [] \<Longrightarrow> truthy (insertIfAbsent st k v k)"
  by (auto simp: insertIfAbsent_def truthy_def)

lemma registerKeys_keeps: "truthy (st k) \<Longrightarrow> registerKeys nd st ns subpath url k = st k"
  by (simp add: registerKeys_def Let_def insertIfAbsent_keeps)

lemma registerKeys_twice:
  assumes "url \<noteq> []"
  shows "registerKeys nd (registerKeys nd st ns subpath url) ns subpath url = registerKeys nd st ns subpath url"
proof -
  let ?b = "ns @ '':'' @ path_basename_ext nd subpath ''.png''"
  let ?f = "ns @ '':'' @ flatNameOf subpath"
  let ?s1 = "insertIfAbsent st ?b url"
  have t1: "truthy (?s1 ?b)" using assms by (rule insertIfAbsent_truthy)
  show ?thesis
  proof (cases "flatNameOf subpath = path_basename_ext nd subpath ''.png''")
    case True
    then show ?thesis by (simp add: registerKeys_def Let_def insertIfAbsent_twice)
  next
    case False
    let ?s2 = "insertIfAbsent ?s1 ?f url"
    have "truthy (?s2 ?b)" using t1 by (simp add: insertIfAbsent_keeps)
    then have a: "insertIfAbsent ?s2 ?b url = ?s2" by (rule insertIfAbsent_present)
    have "truthy (?s2 ?f)" using assms by (rule insertIfAbsent_truthy)
    then have b: "insertIfAbsent ?s2 ?f url = ?s2" by (rule insertIfAbsent_present)
    from False a b show ?thesis by (simp add: registerKeys_def Let_def)
  qed
qed

lemma registerTexture_twice:
  "registerTexture nd (registerTexture nd st ns category subpath) ns category subpath
     = registerTexture nd st ns category subpath"
  by (simp add: registerTexture_def Let_def registerKeys_twice slashes_def)

lemma registerTexture_keeps:
  "(truthy (itemPaths st k) \<longrightarrow> itemPaths (registerTexture nd st ns c sp) k = itemPaths st k) \<and>
   (truthy (blockPaths st k) \<longrightarrow> blockPaths (registerTexture nd st ns c sp) k = blockPaths st k)"
  by (simp add: registerTexture_def Let_def registerKeys_keeps)

lemma registerEntity_keeps:
  "itemPaths (registerEntity nd st ns sp) = itemPaths st \<and>
   (truthy (blockPaths st k) \<longrightarrow> blockPaths (registerEntity nd st ns sp) k = blockPaths st k)"
  by (auto simp: registerEntity_def Let_def)

lemma scanEntry_keeps:
  "(truthy (itemPaths st k) \<longrightarrow> itemPaths (scanEntry nd st e) k = itemPaths st k) \<and>
   (truthy (blockPaths st k) \<longrightarrow> blockPaths (scanEntry nd st e) k = blockPaths st k)"
proof (cases e)
  case (Texture ns c sp ex)
  then show ?thesis
    using registerTexture_keeps [of st k nd ns c sp]
      registerTexture_keeps [of "st\<lparr>files := insert (path_join nd [iconsDir nd, ns, c, sp]) (files st)\<rparr>" k nd ns c sp]
    by (auto simp: Let_def split: option.splits)
next
  case (BlockModel ns rel parsed)
  then show ?thesis by (auto simp: Let_def split: option.splits)
next
  case (Entity ns sp ex)
  then show ?thesis
    using registerEntity_keeps [of nd st ns sp k]
      registerEntity_keeps [of nd "st\<lparr>files := insert (path_join nd [iconsDir nd, ns, ''entity'', sp]) (files st)\<rparr>" ns sp k]
    by (auto simp: Let_def)
next
  case Other
  then show ?thesis by simp
qed

lemma scanJar_keeps:
  "(truthy (itemPaths st k) \<longrightarrow> itemPaths (foldl (scanEntry nd) st jar) k = itemPaths st k) \<and>
   (truthy (blockPaths st k) \<longrightarrow> blockPaths (foldl (scanEntry nd) st jar) k = blockPaths st k)"
proof (induction jar arbitrary: st)
  case Nil
  then show ?case by simp
next
  case (Cons e jar)
  from scanEntry_keeps [of st k nd e] Cons.IH [of "scanEntry nd st e"]
  show ?case by auto
qed

lemma scanJars_keeps:
  "(truthy (itemPaths st k) \<longrightarrow> itemPaths (scanJars nd st jars) k = itemPaths st k) \<and>
   (truthy (blockPaths st k) \<longrightarrow> blockPaths (scanJars nd st jars) k = blockPaths st k)"
proof (induction jars arbitrary: st)
  case Nil
  then show ?case by (simp add: scanJars_def)
next
  case (Cons jar jars)
  from scanJar_keeps [of st k nd jar] Cons.IH [of "foldl (scanEntry nd) st jar"]
  show ?case by (auto simp: scanJars_def)
qed

lemma scanJars_append: "scanJars nd st (js1 @ js2) = scanJars nd (scanJars nd st js1) js2"
  by (simp add: scanJars_def)

lemma nonEmptyValues_insertIfAbsent:
  "nonEmptyValues st \<Longrightarrow> v \<noteq> [] \<Longrightarrow> nonEmptyValues (insertIfAbsent st k v)"
  by (auto simp: nonEmptyValues_def insertIfAbsent_def)

lemma nonEmptyValues_registerKeys:
  "nonEmptyValues st \<Longrightarrow> url \<noteq> [] \<Longrightarrow> nonEmptyValues (registerKeys nd st ns sp url)"
  by (simp add: registerKeys_def Let_def nonEmptyValues_insertIfAbsent)

lemma nonEmptyValues_scanEntry:
  assumes "nonEmptyValues (itemPaths st) \<and> nonEmptyValues (blockPaths st)"
  shows "nonEmptyValues (itemPaths (scanEntry nd st e)) \<and> nonEmptyValues (blockPaths (scanEntry nd st e))"
proof (cases e)
  case (Texture ns c sp ex)
  have "nonEmptyValues (itemPaths (registerTexture nd s ns c sp)) \<and>
        nonEmptyValues (blockPaths (registerTexture nd s ns c sp))"
    if "nonEmptyValues (itemPaths s) \<and> nonEmptyValues (blockPaths s)" for s
    using that by (simp add: registerTexture_def Let_def nonEmptyValues_registerKeys slashes_def)
  from this [of st] this [of "st\<lparr>files := insert (path_join nd [iconsDir nd, ns, c, sp]) (files st)\<rparr>"]
  show ?thesis using assms Texture by (auto simp: Let_def split: option.splits)
next
  case (BlockModel ns rel parsed)
  then show ?thesis using assms by (auto simp: Let_def split: option.splits)
next
  case (Entity ns sp ex)
  have "nonEmptyValues (itemPaths (registerEntity nd s ns sp)) \<and>
        nonEmptyValues (blockPaths (registerEntity nd s ns sp))"
    if "nonEmptyValues (itemPaths s) \<and> nonEmptyValues (blockPaths s)" for s
    using that by (auto simp: registerEntity_def Let_def nonEmptyValues_def slashes_def)
  from this [of st] this [of "st\<lparr>files := insert (path_join nd [iconsDir nd, ns, ''entity'', sp]) (files st)\<rparr>"]
  show ?thesis using assms Entity by (auto simp: Let_def)
next
  case Other
  then show ?thesis using assms by simp
qed

lemma nonEmptyValues_scanJar:
  "nonEmptyValues (itemPaths st) \<and> nonEmptyValues (blockPaths st) \<Longrightarrow>
   nonEmptyValues (itemPaths (foldl (scanEntry nd) st jar)) \<and>
   nonEmptyValues (blockPaths (foldl (scanEntry nd) st jar))"
  by (induction jar arbitrary: st) (simp_all add: nonEmptyValues_scanEntry)

lemma nonEmptyValues_scanJars:
  "nonEmptyValues (itemPaths st) \<and> nonEmptyValues (blockPaths st) \<Longrightarrow>
   nonEmptyValues (itemPaths (scanJars nd st jars)) \<and>
   nonEmptyValues (blockPaths (scanJars nd st jars))"
proof (induction jars arbitrary: st)
  case Nil
  then show ?case by (simp add: scanJars_def)
next
  case (Cons jar jars)
  from Cons.IH [OF nonEmptyValues_scanJar [OF Cons.prems, of nd jar]]
  show ?case by (simp add: scanJars_def)
qed

lemma scanned_present_truthy:
  "itemPaths (scanJars nd emptyScan jars) k = Some p \<or> blockPaths (scanJars nd emptyScan jars) k = Some p
     \<Longrightarrow> p \<noteq> []"
  using nonEmptyValues_scanJars [of emptyScan nd jars]
  by (auto simp: nonEmptyValues_def emptyScan_def)

text \<open>
  C4. Registration is insert-if-absent. A store that holds a path under a key is not
  changed by registering under that key; registering the same pair twice is the same as
  once, for the single operation and for the registration of a texture under its
  basename and flattened keys; and once the archives scanned so far have given a key a
  path in the item store or the block store, no later archive changes it, whatever it
  holds. "Holds a path" is the code's test \<open>store[k]\<close> (a non-empty string): a key that
  a scan has put into a store always holds a non-empty path.
\<close>

theorem catalog_insert_if_absent:
  "(truthy (st k) \<longrightarrow> insertIfAbsent st k v = st) \<and>
   insertIfAbsent (insertIfAbsent st k v) k v = insertIfAbsent st k v \<and>
   registerTexture nd (registerTexture nd s ns category subpath) ns category subpath
     = registerTexture nd s ns category subpath \<and>
   (truthy (itemPaths (scanJars nd s first) k) \<longrightarrow>
      itemPaths (scanJars nd s (first @ second)) k = itemPaths (scanJars nd s first) k) \<and>
   (truthy (blockPaths (scanJars nd s first) k) \<longrightarrow>
      blockPaths (scanJars nd s (first @ second)) k = blockPaths (scanJars nd s first) k) \<and>
   (itemPaths (scanJars nd emptyScan first) k = Some p \<or>
    blockPaths (scanJars nd emptyScan first) k = Some p \<longrightarrow> truthy (Some p))"
proof -
  note a = insertIfAbsent_present [of st k v]
  note b = insertIfAbsent_twice [of st k v]
  note c = registerTexture_twice [of nd s ns category subpath]
  note d = scanJars_keeps [of "scanJars nd s first" k nd second]
  note e = scanned_present_truthy [of nd first k p]
  from a b c d e show ?thesis
    by (simp only: scanJars_append truthy_def option.case) blast
qed

lemma gem_first: "itemPaths (scanJars demoNode emptyScan [gemFirst]) ''mod:gem'' = Some ''icons/mod/item/gem.png''"
  by (simp add: gemFirst_def demoNode_def scanJars_def emptyScan_def Let_def
      iconsDir_def registerTexture_def registerKeys_def
      insertIfAbsent_def truthy_def flatNameOf_def replaceAll_def lastSegment_def stripExt_def slashes_def)

theorem catalog_insert_if_absent_witness:
  "itemPaths (scanJars demoNode emptyScan ([gemFirst] @ [gemSecond])) ''mod:gem'' = Some ''icons/mod/item/gem.png''"
  using catalog_insert_if_absent [where nd = demoNode and s = emptyScan and first = "[gemFirst]"
      and second = "[gemSecond]" and k = "''mod:gem''"]
  by (simp add: gem_first truthy_def)

text \<open>
  C5. The manifest is the block store overlaid by the item store: a key of the item
  store maps to its item-store value (so the item store wins where both have the key); a
  key that the item store does not have, such as a block-only key or a variant key
  written by the resolver, maps to what the block store has for it; and the manifest's
  keys are exactly the keys of the two stores.
\<close>

theorem manifest_overlay:
  "(\<forall>k v. itemStore k = Some v \<longrightarrow> mergeManifest blockStore itemStore k = Some v) \<and>
   (\<forall>k. itemStore k = None \<longrightarrow> mergeManifest blockStore itemStore k = blockStore k) \<and>
   dom (mergeManifest blockStore itemStore) = dom blockStore \<union> dom itemStore"
  by (auto simp: mergeManifest_def map_add_def split: option.splits)

theorem manifest_overlay_witness:
  "mergeManifest [''mod:ore'' \<mapsto> ''icons/mod/block/ore.png'', ''mod:ore#top'' \<mapsto> ''icons/mod/block/ore_top.png'']
      [''mod:ore'' \<mapsto> ''icons/mod/item/ore.png''] ''mod:ore'' = Some ''icons/mod/item/ore.png'' \<and>
   mergeManifest [''mod:ore'' \<mapsto> ''icons/mod/block/ore.png'', ''mod:ore#top'' \<mapsto> ''icons/mod/block/ore_top.png'']
      [''mod:ore'' \<mapsto> ''icons/mod/item/ore.png''] ''mod:ore#top'' = Some ''icons/mod/block/ore_top.png''"
proof -
  let ?b = "[''mod:ore'' \<mapsto> ''icons/mod/block/ore.png'', ''mod:ore#top'' \<mapsto> ''icons/mod/block/ore_top.png'']"
  let ?i = "[''mod:ore'' \<mapsto> ''icons/mod/item/ore.png'']"
  note m = manifest_overlay [where blockStore = ?b and itemStore = ?i]
  have 1: "?i ''mod:ore'' = Some ''icons/mod/item/ore.png''" by simp
  have 2: "?i ''mod:ore#top'' = None" by simp
  from m [THEN conjunct1, rule_format, OF 1]
    m [THEN conjunct2, THEN conjunct1, rule_format, OF 2]
  show ?thesis by simp
qed

end
